theory Spec2Isabelle
  imports Main
begin

section \<open>Strings, regular expressions and the library boundary\<close>

text \<open>
  Strings are lists of 8-bit characters, so the model covers the JavaScript strings whose
  code units are below 256; \<open>length\<close> is the source's \<open>.length\<close> on them.

  The two regular expressions of \<open>verifyPassword\<close> are anchored sequences of character
  classes with a repetition range each. A pattern is kept as the list of its items, in
  the order of the regex literal, and \<open>matches\<close> is \<open>RegExp.test\<close> on such a pattern:
  it tries every repetition count the range and the input allow.
\<close>

type_synonym item = "(char \<Rightarrow> bool) \<times> nat \<times> nat option"

primrec matches :: "item list \<Rightarrow> string \<Rightarrow> bool" where
  "matches [] s = (s = [])"
| "matches (it # its) s =
     (case it of (cls, lo, hi) \<Rightarrow>
        list_ex (\<lambda>n. list_all cls (take n s) \<and> matches its (drop n s))
          [lo ..< Suc (case hi of None \<Rightarrow> length s | Some h \<Rightarrow> min h (length s))])"

definition lit :: "char \<Rightarrow> item" where
  "lit c = ((\<lambda>x. x = c), 1, Some 1)"

definition digit :: "char \<Rightarrow> bool" where
  "digit c = (c \<in> set ''0123456789'')"

definition dot :: "char \<Rightarrow> bool" where
  \<comment> \<open>\<open>.\<close> without the \<open>s\<close> flag: any character but a line terminator\<close>
  "dot c = (c \<noteq> CHR 0x0A \<and> c \<noteq> CHR 0x0D)"

definition hexdigit_i :: "char \<Rightarrow> bool" where
  \<comment> \<open>\<open>[a-f0-9]\<close> under the \<open>i\<close> flag\<close>
  "hexdigit_i c = (c \<in> set ''abcdef0123456789ABCDEF'')"

definition bcryptPattern :: "item list" where
  \<comment> \<open>\<open>/^\$2[aby]\$\d{1,2}\$.{53}$/\<close>\<close>
  "bcryptPattern =
     [lit CHR ''$'', lit CHR ''2'', ((\<lambda>c. c \<in> set ''aby''), 1, Some 1), lit CHR ''$'',
      (digit, 1, Some 2), lit CHR ''$'', (dot, 53, Some 53)]"

definition hexPattern :: "item list" where
  \<comment> \<open>\<open>/^[a-f0-9]+$/i\<close>\<close>
  "hexPattern = [(hexdigit_i, 1, None)]"

text \<open>
  bcryptjs, Node's crypto and jsonwebtoken are libraries outside the repository, and
  \<open>Date.parse\<close> is a built-in of the language. The handlers take them as a record of
  functions. \<open>bcrypt_compare\<close> returns \<open>None\<close> where the library's promise rejects.
  \<open>bcrypt_hash\<close> stands for one run of the salted hash. \<open>date_parse\<close> returns \<open>None\<close>
  where \<open>Date.parse\<close> gives \<open>NaN\<close>.
\<close>

record jwt_payload =
  p_userId :: string
  p_email :: string
  p_role :: string

record lib =
  bcrypt_compare :: "string \<Rightarrow> string \<Rightarrow> bool option"
  bcrypt_hash :: "string \<Rightarrow> nat \<Rightarrow> string"
  sha256_hex :: "string \<Rightarrow> string"
  jwt_sign :: "jwt_payload \<Rightarrow> string"
  date_parse :: "string \<Rightarrow> int option"

subsection \<open>The credential verifier\<close>

definition hashPasswordSHA256 :: "lib \<Rightarrow> string \<Rightarrow> string" where
  "hashPasswordSHA256 L password = sha256_hex L password"

definition verifyPassword :: "lib \<Rightarrow> string \<Rightarrow> string \<Rightarrow> bool option" where
  "verifyPassword L plainPassword storedHash =
     (if matches bcryptPattern storedHash then bcrypt_compare L plainPassword storedHash
      else if length storedHash = 64 \<and> matches hexPattern storedHash
        then Some (hashPasswordSHA256 L plainPassword = storedHash)
      else Some (plainPassword = storedHash))"

section \<open>The record store\<close>

text \<open>
  Instants are milliseconds since the epoch. The three tables are lists of rows in
  insertion order. The rows of \<open>RefreshToken\<close> and \<open>Session\<close> carry the three columns the
  handlers read and write.
\<close>

record user =
  uid :: string
  email :: string
  username :: string
  password :: string
  role :: string
  isActive :: bool
  createdAt :: int
  updatedAt :: int

record token_row =
  userId :: string
  token :: string
  expiresAt :: int

record store =
  users :: "user list"
  sessions :: "token_row list"
  refreshTokens :: "token_row list"

text \<open>
  Modelled from the spec: the table declarations (the Prisma schema is not among the
  sources). The spec's data model makes \<open>email\<close>, \<open>username\<close> and the token values
  unique; \<open>uid\<close> is the primary key. What the declarations leave open is a parameter:
  which role names the enumeration holds, the column defaults of \<open>role\<close> and \<open>isActive\<close>,
  and whether \<open>updatedAt\<close> is stamped by every update.
\<close>

record schema =
  valid_role :: "string \<Rightarrow> bool"
  default_role :: "string option"
  default_isActive :: "bool option"
  touch_updatedAt :: bool

record user_data =
  d_email :: "string option"
  d_username :: "string option"
  d_password :: string
  d_role :: "string option"
  d_isActive :: "bool option"
  d_createdAt :: "int option"

definition resolve_role :: "schema \<Rightarrow> string option \<Rightarrow> string option" where
  "resolve_role sch r =
     (case r of None \<Rightarrow> default_role sch
      | Some x \<Rightarrow> if valid_role sch x then Some x else None)"

definition resolve_isActive :: "schema \<Rightarrow> bool option \<Rightarrow> bool option" where
  "resolve_isActive sch a = (case a of None \<Rightarrow> default_isActive sch | Some b \<Rightarrow> Some b)"

definition user_create ::
  "schema \<Rightarrow> int \<Rightarrow> string \<Rightarrow> user_data \<Rightarrow> store \<Rightarrow> (user \<times> store) option" where
  \<comment> \<open>Modelled from the spec: the unique columns and the required ones (the Prisma
      schema is missing). This is \<open>prisma.user.create\<close>; \<open>None\<close> where it throws: a
      required value is missing, the role is not of the enumeration, or a unique column
      would repeat\<close>
  "user_create sch now newId d st =
     (case (d_email d, d_username d, resolve_role sch (d_role d),
            resolve_isActive sch (d_isActive d)) of
        (Some e, Some n, Some r, Some a) \<Rightarrow>
          if list_ex (\<lambda>u. uid u = newId \<or> email u = e \<or> username u = n) (users st)
          then None
          else
            let row = \<lparr>uid = newId, email = e, username = n, password = d_password d,
                       role = r, isActive = a,
                       createdAt = (case d_createdAt d of None \<Rightarrow> now | Some t \<Rightarrow> t),
                       updatedAt = now\<rparr>
            in Some (row, st\<lparr>users := users st @ [row]\<rparr>)
      | _ \<Rightarrow> None)"

definition user_update ::
  "schema \<Rightarrow> int \<Rightarrow> string \<Rightarrow> (user \<Rightarrow> user) \<Rightarrow> store \<Rightarrow> store option" where
  \<comment> \<open>\<open>prisma.user.update({ where: { id }, data })\<close>; \<open>None\<close> where no row has the id\<close>
  "user_update sch now i f st =
     (if list_ex (\<lambda>u. uid u = i) (users st)
      then Some (st\<lparr>users :=
             map (\<lambda>u. if uid u = i
                        then (if touch_updatedAt sch then (f u)\<lparr>updatedAt := now\<rparr> else f u)
                        else u) (users st)\<rparr>)
      else None)"

definition token_create :: "token_row \<Rightarrow> token_row list \<Rightarrow> token_row list option" where
  \<comment> \<open>Modelled from the spec: the unique token column (the Prisma schema is missing).
      This is \<open>create\<close> on a token table; \<open>None\<close> where the token value would repeat\<close>
  "token_create row rows =
     (if list_ex (\<lambda>r. token r = token row) rows then None else Some (rows @ [row]))"

definition deleteMany :: "('r \<Rightarrow> bool) \<Rightarrow> 'r list \<Rightarrow> nat \<times> 'r list" where
  \<comment> \<open>\<open>deleteMany({ where })\<close>: the count of the rows deleted and the rows left\<close>
  "deleteMany P rows = (length (filter P rows), filter (\<lambda>r. \<not> P r) rows)"

definition falsy :: "string option \<Rightarrow> bool" where
  \<comment> \<open>\<open>!x\<close> on a request field: absent, or the empty string\<close>
  "falsy x = (case x of None \<Rightarrow> True | Some s \<Rightarrow> s = [])"

section \<open>Responses and published events\<close>

text \<open>
  An error response is its status and its \<open>error\<close> message. The user object of a
  response is kept as id, email, username, role and active flag (the stored credential
  is never part of it); the \<open>expiresIn\<close> setting and the creation time are left out.
\<close>

datatype user_view = UserView string string string string bool

datatype response =
  ErrorJson nat string
| Registered user_view string string
| LoggedIn user_view string string string
| Refreshed string
| MessageJson string

datatype event =
  SessionsCleanedUp int nat nat
| UserRegistered int string string string string
| UserLoggedIn int string string string
| TokenRefreshed int string string
| UserLoggedOut int "string option" "string option" bool
| UserLoggedOutAll int string
| UserPasswordChanged int string string

text \<open>
  What a handler draws from outside during one request: the clock (every read within
  the request gives the same instant), the id generated for a new user row, and the two
  values of \<open>crypto.randomBytes(32).toString("hex")\<close>.
\<close>

record env =
  now :: int
  generatedId :: string
  refreshRandom :: string
  sessionRandom :: string

definition REFRESH_TOKEN_EXPIRES_IN :: int where
  "REFRESH_TOKEN_EXPIRES_IN = 7 * 24 * 60 * 60 * 1000"

definition view :: "user \<Rightarrow> user_view" where
  "view u = UserView (uid u) (email u) (username u) (role u) (isActive u)"

definition payload_of :: "user \<Rightarrow> jwt_payload" where
  "payload_of u = \<lparr>p_userId = uid u, p_email = email u, p_role = role u\<rparr>"

section \<open>The request handlers\<close>


definition login ::
  "lib \<Rightarrow> env \<Rightarrow> string \<Rightarrow> string \<Rightarrow> store \<Rightarrow> response \<times> store \<times> event list" where
  "login L ev emailOrUsername pw st =
     (if emailOrUsername = [] \<or> pw = []
      then (ErrorJson 400 ''Email/username and password are required'', st, [])
      else case find (\<lambda>u. (email u = emailOrUsername \<or> username u = emailOrUsername)
                          \<and> isActive u) (users st) of
        None \<Rightarrow> (ErrorJson 401 ''Invalid credentials'', st, [])
      | Some u \<Rightarrow>
          (case verifyPassword L pw (password u) of
            None \<Rightarrow> (ErrorJson 500 ''Failed to login'', st, [])
          | Some False \<Rightarrow> (ErrorJson 401 ''Invalid credentials'', st, [])
          | Some True \<Rightarrow>
              let accessToken = jwt_sign L (payload_of u) in
              (case token_create
                     \<lparr>userId = uid u, token = refreshRandom ev,
                      expiresAt = now ev + REFRESH_TOKEN_EXPIRES_IN\<rparr> (refreshTokens st) of
                None \<Rightarrow> (ErrorJson 500 ''Failed to login'', st, [])
              | Some rows \<Rightarrow>
                  let st1 = st\<lparr>refreshTokens := rows\<rparr> in
                  (case token_create
                         \<lparr>userId = uid u, token = sessionRandom ev,
                          expiresAt = now ev + 24 * 60 * 60 * 1000\<rparr> (sessions st1) of
                    None \<Rightarrow> (ErrorJson 500 ''Failed to login'', st1, [])
                  | Some srows \<Rightarrow>
                      (LoggedIn (view u) accessToken (refreshRandom ev) (sessionRandom ev),
                       st1\<lparr>sessions := srows\<rparr>,
                       [UserLoggedIn (now ev) (uid u) (email u) (sessionRandom ev)])))))"

definition refreshToken ::
  "lib \<Rightarrow> env \<Rightarrow> string \<Rightarrow> store \<Rightarrow> response \<times> store \<times> event list" where
  "refreshToken L ev tok st =
     (if tok = [] then (ErrorJson 400 ''Refresh token is required'', st, [])
      else case find (\<lambda>r. token r = tok) (refreshTokens st) of
        None \<Rightarrow> (ErrorJson 401 ''Invalid or expired refresh token'', st, [])
      | Some tokenRecord \<Rightarrow>
          if expiresAt tokenRecord < now ev
          then (ErrorJson 401 ''Invalid or expired refresh token'', st, [])
          else (case find (\<lambda>u. uid u = userId tokenRecord) (users st) of
            None \<Rightarrow> (ErrorJson 500 ''Failed to refresh token'', st, [])
          | Some owner \<Rightarrow>
              if \<not> isActive owner
              then (ErrorJson 401 ''User account is inactive'', st, [])
              else (Refreshed (jwt_sign L (payload_of owner)), st,
                    [TokenRefreshed (now ev) (uid owner) (email owner)])))"

definition logout ::
  "env \<Rightarrow> string option \<Rightarrow> string option \<Rightarrow> string option \<Rightarrow> store
     \<Rightarrow> response \<times> store \<times> event list" where
  \<comment> \<open>the three fields are kept as they arrive, absent or a string: the event publishes
      \<open>userId\<close> and \<open>sessionToken\<close> as they are\<close>
  "logout ev authUserId refreshTok sessionTok st =
     (let st1 = (if \<not> falsy refreshTok
                 then st\<lparr>refreshTokens :=
                        snd (deleteMany (\<lambda>r. Some (token r) = refreshTok) (refreshTokens st))\<rparr>
                 else st);
          st2 = (if \<not> falsy sessionTok
                 then st1\<lparr>sessions :=
                        snd (deleteMany (\<lambda>r. Some (token r) = sessionTok) (sessions st1))\<rparr>
                 else st1)
      in (MessageJson ''Logout successful'', st2,
          [UserLoggedOut (now ev) authUserId sessionTok (\<not> falsy refreshTok)]))"

definition delete_for_user :: "string \<Rightarrow> store \<Rightarrow> store" where
  \<comment> \<open>the pair \<open>session.deleteMany({ where: { userId } })\<close>,
      \<open>refreshToken.deleteMany({ where: { userId } })\<close>\<close>
  "delete_for_user i st =
     st\<lparr>sessions := snd (deleteMany (\<lambda>r. userId r = i) (sessions st)),
        refreshTokens := snd (deleteMany (\<lambda>r. userId r = i) (refreshTokens st))\<rparr>"

definition logoutAll :: "env \<Rightarrow> string \<Rightarrow> store \<Rightarrow> response \<times> store \<times> event list" where
  "logoutAll ev authUserId st =
     (if authUserId = [] then (ErrorJson 401 ''User not authenticated'', st, [])
      else (MessageJson ''Logged out from all devices'', delete_for_user authUserId st,
            [UserLoggedOutAll (now ev) authUserId]))"

definition changePassword ::
  "lib \<Rightarrow> schema \<Rightarrow> env \<Rightarrow> string \<Rightarrow> string \<Rightarrow> string \<Rightarrow> store
     \<Rightarrow> response \<times> store \<times> event list" where
  "changePassword L sch ev authUserId currentPassword newPassword st =
     (if authUserId = [] then (ErrorJson 401 ''User not authenticated'', st, [])
      else if currentPassword = [] \<or> newPassword = []
        then (ErrorJson 400 ''Current password and new password are required'', st, [])
      else if length newPassword < 6
        then (ErrorJson 400 ''New password must be at least 6 characters long'', st, [])
      else case find (\<lambda>u. uid u = authUserId) (users st) of
        None \<Rightarrow> (ErrorJson 404 ''User not found'', st, [])
      | Some u \<Rightarrow>
          (case bcrypt_compare L currentPassword (password u) of
            None \<Rightarrow> (ErrorJson 500 ''Failed to change password'', st, [])
          | Some False \<Rightarrow> (ErrorJson 400 ''Current password is incorrect'', st, [])
          | Some True \<Rightarrow>
              let hashedNewPassword = bcrypt_hash L newPassword 12 in
              (case user_update sch (now ev) authUserId
                     (\<lambda>x. x\<lparr>password := hashedNewPassword\<rparr>) st of
                None \<Rightarrow> (ErrorJson 500 ''Failed to change password'', st, [])
              | Some st1 \<Rightarrow>
                  (MessageJson ''Password changed successfully. Please login again.'',
                   delete_for_user authUserId st1,
                   [UserPasswordChanged (now ev) authUserId (email u)]))))"

section \<open>The housekeeper\<close>

definition cleanupExpiredSessions :: "env \<Rightarrow> store \<Rightarrow> store \<times> event list" where
  "cleanupExpiredSessions ev st =
     (let expiredSessions = deleteMany (\<lambda>r. expiresAt r < now ev) (sessions st);
          expiredTokens = deleteMany (\<lambda>r. expiresAt r < now ev) (refreshTokens st)
      in (st\<lparr>sessions := snd expiredSessions, refreshTokens := snd expiredTokens\<rparr>,
          [SessionsCleanedUp (now ev) (fst expiredSessions) (fst expiredTokens)]))"

section \<open>The event consumers\<close>

text \<open>
  A consumer catches every error and logs it, so it returns whether the message was
  processed and the store it leaves. The fields of a \<open>user.created\<close> message may be
  missing, and its \<open>createdAt\<close> is a number of milliseconds or a string; a
  \<open>user.deactivated\<close> message carries its user id.
\<close>

datatype js_value = Num int | Str string

record created_message =
  m_email :: "string option"
  m_password :: "string option"
  m_hashedPassword :: "string option"
  m_role :: "string option"
  m_isActive :: "bool option"
  m_createdAt :: "js_value option"

datatype outcome = Processed | Failed

definition finalPassword :: "created_message \<Rightarrow> string option" where
  \<comment> \<open>\<open>None\<close>: "Neither password nor hashedPassword provided"\<close>
  "finalPassword m =
     (if \<not> falsy (m_hashedPassword m) then m_hashedPassword m
      else if \<not> falsy (m_password m) then m_password m
      else None)"

definition new_Date :: "lib \<Rightarrow> js_value \<Rightarrow> int option" where
  \<comment> \<open>\<open>new Date(v)\<close> for a whole number of milliseconds or a string; \<open>None\<close> is the
      Invalid Date: a number beyond the range of time values, a string that does not
      parse\<close>
  "new_Date L v =
     (case v of
        Num n \<Rightarrow> if - 8640000000000000 \<le> n \<and> n \<le> 8640000000000000 then Some n else None
      | Str x \<Rightarrow> date_parse L x)"

definition message_createdAt :: "lib \<Rightarrow> env \<Rightarrow> created_message \<Rightarrow> int option" where
  \<comment> \<open>\<open>createdAt ? new Date(createdAt) : new Date()\<close>\<close>
  "message_createdAt L ev m =
     (case m_createdAt m of
        None \<Rightarrow> Some (now ev)
      | Some (Num n) \<Rightarrow> if n = 0 then Some (now ev) else new_Date L (Num n)
      | Some (Str x) \<Rightarrow> if x = [] then Some (now ev) else new_Date L (Str x))"

definition user_created ::
  "lib \<Rightarrow> schema \<Rightarrow> env \<Rightarrow> created_message \<Rightarrow> store \<Rightarrow> outcome \<times> store" where
  \<comment> \<open>\<open>prisma.user.create\<close> throws on an Invalid Date as it does on a missing value\<close>
  "user_created L sch ev m st =
     (case finalPassword m of
        None \<Rightarrow> (Failed, st)
      | Some fp \<Rightarrow>
          (case message_createdAt L ev m of
             None \<Rightarrow> (Failed, st)
           | Some t \<Rightarrow>
               (case user_create sch (now ev) (generatedId ev)
                       \<lparr>d_email = m_email m, d_username = m_email m, d_password = fp,
                        d_role = m_role m, d_isActive = m_isActive m,
                        d_createdAt = Some t\<rparr> st of
                  None \<Rightarrow> (Failed, st)
                | Some (u, st1) \<Rightarrow> (Processed, st1))))"

definition user_deactivated :: "schema \<Rightarrow> env \<Rightarrow> string \<Rightarrow> store \<Rightarrow> outcome \<times> store" where
  \<comment> \<open>the three calls of the \<open>Promise.all\<close> are all issued: the two bulk deletes run also
      where the update rejects because no row has the id\<close>
  "user_deactivated sch ev msgUserId st =
     (case user_update sch (now ev) msgUserId (\<lambda>x. x\<lparr>isActive := False\<rparr>) st of
        None \<Rightarrow> (Failed, delete_for_user msgUserId st)
      | Some st1 \<Rightarrow> (Processed, delete_for_user msgUserId st1))"

section \<open>The credential shapes in the spec's words\<close>

text \<open>
  The spec classifies a stored credential by shape: the adaptive-hash pattern is a fixed
  prefix class, a cost factor and a 53-character remainder; a legacy digest is exactly
  64 hexadecimal characters; everything else is the plaintext fallback. These
  definitions follow that wording and are compared with the regular expressions of the
  source below.
\<close>

definition adaptive_shape :: "string \<Rightarrow> bool" where
  "adaptive_shape s =
     (\<exists>v cost rest. s = ''$2'' @ [v] @ ''$'' @ cost @ ''$'' @ rest \<and> v \<in> set ''aby'' \<and>
        length cost \<in> {1, 2} \<and> list_all digit cost \<and>
        length rest = 53 \<and> list_all dot rest)"

definition hex64_shape :: "string \<Rightarrow> bool" where
  "hex64_shape s = (length s = 64 \<and> list_all hexdigit_i s)"




datatype encoding = Adaptive | LegacyDigest | PlainFallback

definition classify :: "string \<Rightarrow> encoding" where
  "classify s = (if adaptive_shape s then Adaptive
                 else if hex64_shape s then LegacyDigest else PlainFallback)"

section \<open>Stand-ins for the libraries\<close>

text \<open>
  To run the handlers on concrete inputs the library functions need values. These
  stand-ins keep the formats and the failures of the real ones: a hash of 60 characters
  in the bcrypt layout that \<open>compare\<close> accepts for the password it was made from;
  \<open>false\<close> from \<open>compare\<close> for a string that is not 60 characters long; a rejected
  promise from \<open>compare\<close> for a string of 60 characters whose salt is not written in
  bcrypt's alphabet; a digest of 64 lower-case hexadecimal characters; a date parser
  that knows one timestamp.
\<close>

definition stub_hash :: "string \<Rightarrow> nat \<Rightarrow> string" where
  "stub_hash pw rounds = ''$2a$12$'' @ take 53 (pw @ replicate 53 CHR ''.'')"

definition bcrypt_alphabet :: "char \<Rightarrow> bool" where
  "bcrypt_alphabet c =
     (c \<in> set ''./ABCDEFGHIJKLMNOPQRSTUVWXYZabcdefghijklmnopqrstuvwxyz0123456789'')"

definition stub_compare :: "string \<Rightarrow> string \<Rightarrow> bool option" where
  "stub_compare pw h =
     (if length h \<noteq> 60 then Some False
      else if \<not> list_all bcrypt_alphabet (take 22 (drop 7 h)) then None
      else Some (h = stub_hash pw 12))"

definition stub_sha :: "string \<Rightarrow> string" where
  "stub_sha pw = take 64 (concat (map (\<lambda>c. if digit c then [c] else ''af'') pw)
                          @ replicate 64 CHR ''0'')"

definition stub_sign :: "jwt_payload \<Rightarrow> string" where
  "stub_sign p = ''jwt:'' @ p_userId p @ '':'' @ p_role p"

definition stub_parse :: "string \<Rightarrow> int option" where
  "stub_parse x = (if x = ''1970-01-01T00:00:05.000Z'' then Some 5000 else None)"

definition stub_lib :: lib where
  "stub_lib = \<lparr>bcrypt_compare = stub_compare, bcrypt_hash = stub_hash,
               sha256_hex = stub_sha, jwt_sign = stub_sign, date_parse = stub_parse\<rparr>"

definition stub_schema :: schema where
  "stub_schema = \<lparr>valid_role = (\<lambda>r. r = ''USER'' \<or> r = ''ADMIN''),
                  default_role = Some ''USER'', default_isActive = Some True,
                  touch_updatedAt = True\<rparr>"

section \<open>Example data\<close>

text \<open>
  A small store on which the handlers are run: an active user with a bcrypt
  credential, an inactive user with a plaintext one, an active user with a legacy digest.
\<close>

definition alice :: user where
  "alice = \<lparr>uid = ''u1'', email = ''a@x.com'', username = ''a'',
             password = stub_hash ''secret123'' 12, role = ''USER'', isActive = True,
             createdAt = 1000, updatedAt = 1000\<rparr>"

definition bob :: user where
  "bob = \<lparr>uid = ''u2'', email = ''b@x.com'', username = ''b'',
           password = ''hunter2'', role = ''USER'', isActive = False,
           createdAt = 2000, updatedAt = 2000\<rparr>"

definition carol :: user where
  "carol = \<lparr>uid = ''u3'', email = ''c@x.com'', username = ''c'',
             password = stub_sha ''secret123'', role = ''ADMIN'', isActive = True,
             createdAt = 3000, updatedAt = 3000\<rparr>"

definition ex_env :: env where
  "ex_env = \<lparr>now = 1000000, generatedId = ''u9'', refreshRandom = ''r9'',
              sessionRandom = ''s9''\<rparr>"

definition ex_store :: store where
  "ex_store =
     \<lparr>users = [alice, bob, carol],
      sessions = [\<lparr>userId = ''u1'', token = ''s1'', expiresAt = 999000\<rparr>,
                  \<lparr>userId = ''u3'', token = ''s2'', expiresAt = 4600000\<rparr>],
      refreshTokens = [\<lparr>userId = ''u1'', token = ''r1'', expiresAt = 2000000\<rparr>,
                       \<lparr>userId = ''u2'', token = ''r2'', expiresAt = 2000000\<rparr>,
                       \<lparr>userId = ''u3'', token = ''r3'', expiresAt = 500\<rparr>]\<rparr>"

definition ex_store0 :: store where
  "ex_store0 =
     \<lparr>users = [alice, bob, carol],
      sessions = [\<lparr>userId = ''u3'', token = ''s2'', expiresAt = 4600000\<rparr>],
      refreshTokens = [\<lparr>userId = ''u2'', token = ''r2'', expiresAt = 2000000\<rparr>]\<rparr>"

definition ex_env2 :: env where
  "ex_env2 = \<lparr>now = 2000000, generatedId = ''u10'', refreshRandom = ''r10'',
               sessionRandom = ''s10''\<rparr>"

definition ex_msg :: created_message where
  "ex_msg = \<lparr>m_email = Some ''d@x.com'', m_password = Some (stub_sha ''secret123''),
              m_hashedPassword = None, m_role = Some ''USER'', m_isActive = Some True,
              m_createdAt = Some (Str ''1970-01-01T00:00:05.000Z'')\<rparr>"

definition malformed_hash :: string where
  \<comment> \<open>a string of the adaptive pattern that is not a bcrypt hash\<close>
  "malformed_hash = ''$2a$12$'' @ replicate 53 CHR ''!''"

definition mallory :: user where
  "mallory = \<lparr>uid = ''u4'', email = ''m@x.com'', username = ''m'',
               password = malformed_hash, role = ''USER'', isActive = True,
               createdAt = 4000, updatedAt = 4000\<rparr>"

definition ex_store_m :: store where
  "ex_store_m = \<lparr>users = [alice, mallory], sessions = [], refreshTokens = []\<rparr>"

text \<open>
  What the update of the \<open>user.deactivated\<close> consumer writes into one row under a
  schema: used to state the store the consumer leaves.
\<close>

definition deactivate_row :: "schema \<Rightarrow> int \<Rightarrow> string \<Rightarrow> user \<Rightarrow> user" where
  "deactivate_row sch t i u =
     (if uid u = i
      then (if touch_updatedAt sch then u\<lparr>isActive := False, updatedAt := t\<rparr>
            else u\<lparr>isActive := False\<rparr>)
      else u)"

section \<open>The regular expressions against the spec's shapes\<close>

lemma list_ex_upt: "list_ex P [a..<b] = (\<exists>n. a \<le> n \<and> n < b \<and> P n)"
  by (auto simp: list_ex_iff)

lemma matches_Cons:
  "matches ((cls, lo, hi) # its) s =
     (\<exists>pre post. s = pre @ post \<and> lo \<le> length pre \<and>
        (case hi of None \<Rightarrow> True | Some h \<Rightarrow> length pre \<le> h) \<and>
        list_all cls pre \<and> matches its post)"
proof
  assume "matches ((cls, lo, hi) # its) s"
  then obtain n where n: "lo \<le> n" "n < Suc (case hi of None \<Rightarrow> length s | Some h \<Rightarrow> min h (length s))"
      "list_all cls (take n s)" "matches its (drop n s)"
    by (auto simp: list_ex_upt simp del: upt_Suc)
  have le: "n \<le> length s" using n(2) by (cases hi) auto
  have hi: "case hi of None \<Rightarrow> True | Some h \<Rightarrow> length (take n s) \<le> h"
    using n(2) by (cases hi) auto
  have "s = take n s @ drop n s" by simp
  moreover have "lo \<le> length (take n s)" using n(1) le by simp
  ultimately show "\<exists>pre post. s = pre @ post \<and> lo \<le> length pre \<and>
        (case hi of None \<Rightarrow> True | Some h \<Rightarrow> length pre \<le> h) \<and>
        list_all cls pre \<and> matches its post"
    using n(3,4) hi by blast
next
  assume "\<exists>pre post. s = pre @ post \<and> lo \<le> length pre \<and>
        (case hi of None \<Rightarrow> True | Some h \<Rightarrow> length pre \<le> h) \<and>
        list_all cls pre \<and> matches its post"
  then obtain pre post where p: "s = pre @ post" "lo \<le> length pre"
      "case hi of None \<Rightarrow> True | Some h \<Rightarrow> length pre \<le> h" "list_all cls pre" "matches its post"
    by blast
  have "length pre < Suc (case hi of None \<Rightarrow> length s | Some h \<Rightarrow> min h (length s))"
    using p(1,3) by (cases hi) auto
  then show "matches ((cls, lo, hi) # its) s"
    using p by (auto simp: list_ex_upt simp del: upt_Suc intro!: exI[of _ "length pre"])
qed

lemma matches_one:
  "matches ((cls, 1, Some 1) # its) s = (\<exists>x post. s = x # post \<and> cls x \<and> matches its post)"
  (is "?L = ?R")
proof
  assume ?L
  then obtain pre post where p: "s = pre @ post" "1 \<le> length pre" "length pre \<le> 1"
      "list_all cls pre" "matches its post"
    unfolding matches_Cons by auto
  then obtain x where "pre = [x]" by (cases pre) auto
  with p show ?R by auto
next
  assume ?R
  then obtain x post where "s = [x] @ post" "cls x" "matches its post" by auto
  then show ?L unfolding matches_Cons by (intro exI[of _ "[x]"] exI[of _ post]) simp
qed

lemma matches_lit:
  "matches (lit c # its) s = (\<exists>post. s = c # post \<and> matches its post)"
  unfolding lit_def matches_one by auto

lemma matches_last:
  "matches [(cls, lo, hi)] s =
     (lo \<le> length s \<and> (case hi of None \<Rightarrow> True | Some h \<Rightarrow> length s \<le> h) \<and> list_all cls s)"
  unfolding matches_Cons by auto

lemma matches_hexPattern: "matches hexPattern s = (s \<noteq> [] \<and> list_all hexdigit_i s)"
  unfolding hexPattern_def matches_last by (cases s) auto

lemma matches_bcryptPattern_unfolded: "matches bcryptPattern s =
      (\<exists>v cost rest. s = CHR ''$'' # CHR ''2'' # v # CHR ''$'' # cost @ CHR ''$'' # rest \<and>
         v \<in> set ''aby'' \<and> 1 \<le> length cost \<and> length cost \<le> 2 \<and> list_all digit cost \<and>
         53 \<le> length rest \<and> length rest \<le> 53 \<and> list_all dot rest)"
    unfolding bcryptPattern_def matches_lit matches_one
    unfolding matches_Cons[of digit] matches_lit matches_last
    apply (simp only: option.case)
    apply (rule iffI)
     apply (elim exE conjE)
     apply (intro exI conjI)
            apply (simp_all)[8]
    apply (elim exE conjE)
    apply (intro exI conjI)
    apply simp_all
    done


lemma matches_bcryptPattern: "matches bcryptPattern s = adaptive_shape s"
proof -
  have "adaptive_shape s =
      (\<exists>v cost rest. s = CHR ''$'' # CHR ''2'' # v # CHR ''$'' # cost @ CHR ''$'' # rest \<and>
         v \<in> set ''aby'' \<and> 1 \<le> length cost \<and> length cost \<le> 2 \<and> list_all digit cost \<and>
         53 \<le> length rest \<and> length rest \<le> 53 \<and> list_all dot rest)"
  proof -
    have a: "\<And>n::nat. (n \<in> {1, 2}) = (1 \<le> n \<and> n \<le> 2)" by auto
    have b: "\<And>n::nat. (n = 53) = (53 \<le> n \<and> n \<le> 53)" by auto
    show ?thesis
      unfolding adaptive_shape_def a b[of "length _"] by (simp only: append_Cons append_Nil conj_assoc)
  qed
  then show ?thesis unfolding matches_bcryptPattern_unfolded by simp
qed



lemma hex_test: "(length s = 64 \<and> matches hexPattern s) = hex64_shape s"
  unfolding matches_hexPattern hex64_shape_def by auto

lemma classify_code:
  "classify s = (if matches bcryptPattern s then Adaptive
                 else if length s = 64 \<and> matches hexPattern s then LegacyDigest
                 else PlainFallback)"
  unfolding classify_def matches_bcryptPattern hex_test by simp

section \<open>The verifier on the three encodings\<close>

lemma verifyPassword_dispatch:
  "verifyPassword L p s =
     (case classify s of
        Adaptive \<Rightarrow> bcrypt_compare L p s
      | LegacyDigest \<Rightarrow> Some (sha256_hex L p = s)
      | PlainFallback \<Rightarrow> Some (p = s))"
  unfolding verifyPassword_def classify_def matches_bcryptPattern hex_test hashPasswordSHA256_def
  by simp




lemma malformed_hash_shape: "adaptive_shape malformed_hash"
  unfolding matches_bcryptPattern[symmetric] by code_simp





section \<open>Refreshing an access token\<close>

lemmas ex_defs = alice_def bob_def carol_def ex_env_def ex_store_def

lemma find_unique:
  "distinct (map f xs) \<Longrightarrow> x \<in> set xs \<Longrightarrow> find (\<lambda>y. f y = f x) xs = Some x"
  by (induction xs) (auto simp: image_iff)

text \<open>
  C2. A refresh request that carries a token (the field is not empty) whose row is in the
  store and not expired, and whose owner is inactive, is answered by the failure the
  handler keeps for the inactive account, 401 "User account is inactive": this is
  the outcome the spec calls AUTH_FORBIDDEN. It is not the answer to an unknown or
  expired token (AUTH_INVALID), no access token is signed, nothing is published and
  the store is as before.
\<close>

theorem refresh_inactive_owner:
  assumes "token row \<noteq> []"
    and "distinct (map token (refreshTokens st))" and "row \<in> set (refreshTokens st)"
    and "\<not> expiresAt row < now ev"
    and "distinct (map uid (users st))" and "owner \<in> set (users st)"
    and "uid owner = userId row" and "\<not> isActive owner"
  shows "refreshToken L ev (token row) st = (ErrorJson 401 ''User account is inactive'', st, [])
         \<and> fst (refreshToken L ev (token row) st) \<noteq> ErrorJson 401 ''Invalid or expired refresh token''
         \<and> (\<forall>a. fst (refreshToken L ev (token row) st) \<noteq> Refreshed a)"
proof -
  have r: "find (\<lambda>r. token r = token row) (refreshTokens st) = Some row"
    using assms(2,3) by (rule find_unique)
  have "find (\<lambda>u. uid u = uid owner) (users st) = Some owner"
    using assms(5,6) by (rule find_unique)
  then have u: "find (\<lambda>u. uid u = userId row) (users st) = Some owner"
    using assms(7) by simp
  show ?thesis
    unfolding refreshToken_def using assms(1,4,8) by (simp add: r u)
qed

theorem refresh_inactive_owner_witness:
  "refreshToken stub_lib ex_env ''r2'' ex_store
     = (ErrorJson 401 ''User account is inactive'', ex_store, [])"
proof -
  let ?row = "\<lparr>userId = ''u2'', token = ''r2'', expiresAt = 2000000\<rparr>"
  have h: "token ?row \<noteq> []" "distinct (map token (refreshTokens ex_store))"
    "?row \<in> set (refreshTokens ex_store)" "\<not> expiresAt ?row < now ex_env"
    "distinct (map uid (users ex_store))" "bob \<in> set (users ex_store)"
    "uid bob = userId ?row" "\<not> isActive bob"
    by (simp_all add: ex_defs)
  show ?thesis
    using refresh_inactive_owner[OF h, of stub_lib] by simp
qed

text \<open>
  C5. A refresh request that carries a token which no row of the store holds, or whose
  row has \<open>expiresAt\<close> strictly before the current instant, is answered 401 "Invalid or
  expired refresh token" (AUTH_INVALID); no access token is signed, nothing is
  published and the store is as before.
\<close>

theorem refresh_unknown_or_expired:
  assumes "tok \<noteq> []" and "distinct (map token (refreshTokens st))"
    and "(\<forall>r \<in> set (refreshTokens st). token r \<noteq> tok)
         \<or> (\<exists>r \<in> set (refreshTokens st). token r = tok \<and> expiresAt r < now ev)"
  shows "refreshToken L ev tok st = (ErrorJson 401 ''Invalid or expired refresh token'', st, [])
         \<and> (\<forall>a. fst (refreshToken L ev tok st) \<noteq> Refreshed a)"
proof -
  from assms(3) have "refreshToken L ev tok st = (ErrorJson 401 ''Invalid or expired refresh token'', st, [])"
  proof
    assume "\<forall>r \<in> set (refreshTokens st). token r \<noteq> tok"
    then have "find (\<lambda>r. token r = tok) (refreshTokens st) = None"
      by (simp add: find_None_iff)
    then show ?thesis unfolding refreshToken_def using assms(1) by simp
  next
    assume "\<exists>r \<in> set (refreshTokens st). token r = tok \<and> expiresAt r < now ev"
    then obtain r where r: "r \<in> set (refreshTokens st)" "token r = tok" "expiresAt r < now ev"
      by blast
    have "find (\<lambda>x. token x = token r) (refreshTokens st) = Some r"
      using assms(2) r(1) by (rule find_unique)
    then show ?thesis unfolding refreshToken_def using assms(1) r(2,3) by auto
  qed
  then show ?thesis by simp
qed

theorem refresh_unknown_or_expired_witness:
  "refreshToken stub_lib ex_env ''r3'' ex_store
     = (ErrorJson 401 ''Invalid or expired refresh token'', ex_store, [])
   \<and> refreshToken stub_lib ex_env ''nope'' ex_store
     = (ErrorJson 401 ''Invalid or expired refresh token'', ex_store, [])"
proof -
  have d: "distinct (map token (refreshTokens ex_store))" by (simp add: ex_defs)
  have a: "(\<forall>r \<in> set (refreshTokens ex_store). token r \<noteq> ''r3'')
         \<or> (\<exists>r \<in> set (refreshTokens ex_store). token r = ''r3'' \<and> expiresAt r < now ex_env)"
    by (simp add: ex_defs)
  have b: "(\<forall>r \<in> set (refreshTokens ex_store). token r \<noteq> ''nope'')
         \<or> (\<exists>r \<in> set (refreshTokens ex_store). token r = ''nope'' \<and> expiresAt r < now ex_env)"
    by (simp add: ex_defs)
  show ?thesis
    using refresh_unknown_or_expired[OF _ d a, of stub_lib]
      refresh_unknown_or_expired[OF _ d b, of stub_lib] by simp
qed

section \<open>Login\<close>

text \<open>
  C10. Of two login attempts that pass the field validation, one naming an email or
  username that no user has, the other naming an existing user with a password that
  verification rejects by returning false, both get the same response, 401 "Invalid
  credentials", and both leave the store as it was and publish nothing. Where the
  verification of the found user's credential throws instead (a stored string of the
  adaptive pattern that bcrypt rejects), the handler's \<open>catch\<close> answers 500 "Failed to
  login", again with the store as it was and nothing published: that answer is not the
  one an unknown user gets. (What the server logs and how long it takes are outside the
  model.)
\<close>

theorem login_unknown_or_rejected:
  assumes "xa \<noteq> []" and "pwa \<noteq> []" and "xb \<noteq> []" and "pwb \<noteq> []"
    and "\<forall>u \<in> set (users sta). email u \<noteq> xa \<and> username u \<noteq> xa"
    and "ub \<in> set (users stb)" and "email ub = xb \<or> username ub = xb"
    and "\<forall>u \<in> set (users stb). (email u = xb \<or> username u = xb)
           \<longrightarrow> verifyPassword L pwb (password u) = Some False"
  shows "login L eva xa pwa sta = (ErrorJson 401 ''Invalid credentials'', sta, [])
       \<and> login L evb xb pwb stb = (ErrorJson 401 ''Invalid credentials'', stb, [])
       \<and> fst (login L eva xa pwa sta) = fst (login L evb xb pwb stb)
       \<and> (xc \<noteq> [] \<and> pwc \<noteq> []
            \<and> find (\<lambda>u. (email u = xc \<or> username u = xc) \<and> isActive u) (users stc) = Some uc
            \<and> verifyPassword L pwc (password uc) = None
          \<longrightarrow> login L evc xc pwc stc = (ErrorJson 500 ''Failed to login'', stc, [])
              \<and> fst (login L evc xc pwc stc) \<noteq> fst (login L eva xa pwa sta))"
proof -
  have "find (\<lambda>u. (email u = xa \<or> username u = xa) \<and> isActive u) (users sta) = None"
    using assms(5) by (auto simp: find_None_iff)
  then have a: "login L eva xa pwa sta = (ErrorJson 401 ''Invalid credentials'', sta, [])"
    unfolding login_def using assms(1,2) by simp
  have b: "login L evb xb pwb stb = (ErrorJson 401 ''Invalid credentials'', stb, [])"
  proof (cases "find (\<lambda>u. (email u = xb \<or> username u = xb) \<and> isActive u) (users stb)")
    case None
    then show ?thesis unfolding login_def using assms(3,4) by simp
  next
    case (Some u)
    then have "u \<in> set (users stb)" "email u = xb \<or> username u = xb"
      by (auto simp: find_Some_iff)
    then have "verifyPassword L pwb (password u) = Some False" using assms(8) by blast
    then show ?thesis unfolding login_def using assms(3,4) Some by simp
  qed
  have c: "login L evc xc pwc stc = (ErrorJson 500 ''Failed to login'', stc, [])"
    if "xc \<noteq> [] \<and> pwc \<noteq> []
        \<and> find (\<lambda>u. (email u = xc \<or> username u = xc) \<and> isActive u) (users stc) = Some uc
        \<and> verifyPassword L pwc (password uc) = None"
    using that unfolding login_def by simp
  show ?thesis using a b c by simp
qed

lemma verify_mallory: "verifyPassword stub_lib ''wrong-password'' (password mallory) = None"
proof -
  have "stub_compare ''wrong-password'' malformed_hash = None" by code_simp
  then show ?thesis
    using malformed_hash_shape
    by (simp add: verifyPassword_dispatch classify_def mallory_def stub_lib_def)
qed

theorem login_unknown_or_rejected_witness:
  "login stub_lib ex_env ''nobody@x.com'' ''secret123'' ex_store
     = (ErrorJson 401 ''Invalid credentials'', ex_store, [])
   \<and> login stub_lib ex_env ''a@x.com'' ''wrong-password'' ex_store
     = (ErrorJson 401 ''Invalid credentials'', ex_store, [])
   \<and> login stub_lib ex_env ''m@x.com'' ''wrong-password'' ex_store_m
     = (ErrorJson 500 ''Failed to login'', ex_store_m, [])"
proof -
  have v: "verifyPassword stub_lib ''wrong-password'' (password alice) = Some False"
    unfolding alice_def by code_simp
  have h: "\<forall>u \<in> set (users ex_store). email u \<noteq> ''nobody@x.com'' \<and> username u \<noteq> ''nobody@x.com''"
    "alice \<in> set (users ex_store)" "email alice = ''a@x.com'' \<or> username alice = ''a@x.com''"
    by (simp_all add: ex_defs)
  have w: "\<forall>u \<in> set (users ex_store). (email u = ''a@x.com'' \<or> username u = ''a@x.com'')
           \<longrightarrow> verifyPassword stub_lib ''wrong-password'' (password u) = Some False"
    using v by (simp add: ex_store_def bob_def carol_def)
  have f: "find (\<lambda>u. (email u = ''m@x.com'' \<or> username u = ''m@x.com'') \<and> isActive u)
             (users ex_store_m) = Some mallory"
    by (simp add: ex_store_m_def alice_def mallory_def)
  note t = login_unknown_or_rejected[where L = stub_lib and eva = ex_env and evb = ex_env
        and pwa = "''secret123''" and pwb = "''wrong-password''"
        and xc = "''m@x.com''" and pwc = "''wrong-password''" and stc = ex_store_m
        and uc = mallory and evc = ex_env, OF _ _ _ _ h w]
  show ?thesis using t f verify_mallory by simp
qed

text \<open>
  The claim as it was stated fails on a pair of attempts with a wrong password each:
  for the unknown user the answer is 401, for the existing user whose stored credential
  makes the verification throw it is 500.
\<close>

theorem login_enumeration_counterexample:
  "login stub_lib ex_env ''nobody@x.com'' ''wrong-password'' ex_store_m
     = (ErrorJson 401 ''Invalid credentials'', ex_store_m, [])
   \<and> login stub_lib ex_env ''m@x.com'' ''wrong-password'' ex_store_m
     = (ErrorJson 500 ''Failed to login'', ex_store_m, [])"
proof -
  have n: "find (\<lambda>u. (email u = ''nobody@x.com'' \<or> username u = ''nobody@x.com'') \<and> isActive u)
             (users ex_store_m) = None"
    by (simp add: ex_store_m_def alice_def mallory_def)
  have f: "find (\<lambda>u. (email u = ''m@x.com'' \<or> username u = ''m@x.com'') \<and> isActive u)
             (users ex_store_m) = Some mallory"
    by (simp add: ex_store_m_def alice_def mallory_def)
  show ?thesis unfolding login_def by (simp add: n f verify_mallory)
qed

section \<open>The expiry sweep\<close>

text \<open>
  C9. One run of the sweep keeps exactly the Session and RefreshToken rows whose
  \<open>expiresAt\<close> is at or after the current instant, in their order, deletes the rows
  strictly before it, leaves the users alone and publishes one
  \<open>auth.sessionsCleanedUp\<close> event whose two counts are the numbers of rows deleted from
  each table.
\<close>

theorem cleanup_exact:
  "cleanupExpiredSessions ev st =
     (st\<lparr>sessions := filter (\<lambda>r. now ev \<le> expiresAt r) (sessions st),
         refreshTokens := filter (\<lambda>r. now ev \<le> expiresAt r) (refreshTokens st)\<rparr>,
      [SessionsCleanedUp (now ev)
         (length (sessions st) - length (filter (\<lambda>r. now ev \<le> expiresAt r) (sessions st)))
         (length (refreshTokens st)
            - length (filter (\<lambda>r. now ev \<le> expiresAt r) (refreshTokens st)))])
   \<and> length (filter (\<lambda>r. expiresAt r < now ev) (sessions st))
       = length (sessions st) - length (filter (\<lambda>r. now ev \<le> expiresAt r) (sessions st))
   \<and> length (filter (\<lambda>r. expiresAt r < now ev) (refreshTokens st))
       = length (refreshTokens st)
           - length (filter (\<lambda>r. now ev \<le> expiresAt r) (refreshTokens st))"
proof -
  have n: "\<And>r. (\<not> expiresAt r < now ev) = (now ev \<le> expiresAt r)" by auto
  have c: "length (filter (\<lambda>r. expiresAt r < now ev) rows)
       = length rows - length (filter (\<lambda>r. now ev \<le> expiresAt r) rows)"
    for rows :: "token_row list"
  proof -
    have "length (filter (\<lambda>r. expiresAt r < now ev) rows)
          + length (filter (\<lambda>r. \<not> expiresAt r < now ev) rows) = length rows"
      by (rule sum_length_filter_compl)
    then show ?thesis by (simp add: n)
  qed
  show ?thesis
    unfolding cleanupExpiredSessions_def deleteMany_def Let_def by (simp add: n c)
qed


theorem cleanup_exact_witness:
  "cleanupExpiredSessions \<lparr>now = 1000000, generatedId = [], refreshRandom = [], sessionRandom = []\<rparr>
     \<lparr>users = [], sessions = [\<lparr>userId = ''u1'', token = ''s1'', expiresAt = 1000000 - 1000\<rparr>,
                               \<lparr>userId = ''u1'', token = ''s2'', expiresAt = 1000000 + 3600000\<rparr>],
      refreshTokens = []\<rparr>
   = (\<lparr>users = [], sessions = [\<lparr>userId = ''u1'', token = ''s2'', expiresAt = 4600000\<rparr>],
       refreshTokens = []\<rparr>,
      [SessionsCleanedUp 1000000 1 0])"
  using cleanup_exact[of "\<lparr>now = 1000000, generatedId = [], refreshRandom = [], sessionRandom = []\<rparr>"
     "\<lparr>users = [], sessions = [\<lparr>userId = ''u1'', token = ''s1'', expiresAt = 1000000 - 1000\<rparr>,
                               \<lparr>userId = ''u1'', token = ''s2'', expiresAt = 1000000 + 3600000\<rparr>],
      refreshTokens = []\<rparr>"]
  by simp


section \<open>Logout\<close>

lemma filter_single_token:
  assumes "distinct (map token rows)" and "s \<in> set rows"
  shows "filter (\<lambda>r. token r \<noteq> token s) rows = remove1 s rows"
  using assms
proof (induction rows)
  case Nil
  then show ?case by simp
next
  case (Cons a rows)
  show ?case
  proof (cases "a = s")
    case True
    then have "\<forall>r \<in> set rows. token r \<noteq> token s" using Cons.prems by (auto simp: image_iff)
    then have "filter (\<lambda>r. token r \<noteq> token s) rows = rows" by (simp add: filter_id_conv)
    with True show ?thesis by simp
  next
    case False
    then have "s \<in> set rows" using Cons.prems by simp
    moreover have "token a \<noteq> token s" using Cons.prems False \<open>s \<in> set rows\<close> by (auto simp: image_iff)
    ultimately show ?thesis using Cons False by simp
  qed
qed

lemma filter_remove1_drop: "\<not> Q x \<Longrightarrow> filter Q (remove1 x xs) = filter Q xs"
  by (induction xs) auto

lemma login_run:
  "login stub_lib ex_env ''a'' ''secret123'' ex_store0
   = (LoggedIn (UserView ''u1'' ''a@x.com'' ''a'' ''USER'' True) ''jwt:u1:USER'' ''r9'' ''s9'',
      \<lparr>users = [alice, bob, carol],
       sessions = [\<lparr>userId = ''u3'', token = ''s2'', expiresAt = 4600000\<rparr>,
                   \<lparr>userId = ''u1'', token = ''s9'', expiresAt = 87400000\<rparr>],
       refreshTokens = [\<lparr>userId = ''u2'', token = ''r2'', expiresAt = 2000000\<rparr>,
                        \<lparr>userId = ''u1'', token = ''r9'', expiresAt = 605800000\<rparr>]\<rparr>,
      [UserLoggedIn 1000000 ''u1'' ''a@x.com'' ''s9''])"
proof -
  have f: "find (\<lambda>u. (email u = ''a'' \<or> username u = ''a'') \<and> isActive u) (users ex_store0)
           = Some alice"
    by (simp add: ex_store0_def alice_def)
  have v: "verifyPassword stub_lib ''secret123'' (password alice) = Some True"
    unfolding alice_def by code_simp
  show ?thesis
    unfolding login_def
    by (simp add: f v Let_def)
       (simp add: token_create_def ex_store0_def ex_env_def alice_def view_def payload_of_def
          stub_lib_def stub_sign_def REFRESH_TOKEN_EXPIRES_IN_def)
qed

text \<open>
  C8. A user holds exactly one session row. A logout that carries only that session's
  token (the refresh-token field is absent or empty) deletes exactly that row: the user
  has no session left and the refresh-token table and the users are as before. A
  \<open>logoutAll\<close> for the user after it leaves neither a session nor a refresh token of
  the user, and does not touch the rows of other users.
\<close>

theorem logout_session_then_logoutAll:
  assumes "token s \<noteq> []" and "i \<noteq> []"
    and "distinct (map token (sessions st))"
    and "filter (\<lambda>r. userId r = i) (sessions st) = [s]"
    and "falsy rt"
    and "logout ev au rt (Some (token s)) st = (respa, sta, evsa)"
    and "logoutAll evb i sta = (respb, stb, evsb)"
  shows "sessions sta = remove1 s (sessions st)
       \<and> length (sessions sta) + 1 = length (sessions st)
       \<and> filter (\<lambda>r. userId r = i) (sessions sta) = []
       \<and> refreshTokens sta = refreshTokens st \<and> users sta = users st
       \<and> filter (\<lambda>r. userId r = i) (sessions stb) = []
       \<and> filter (\<lambda>r. userId r = i) (refreshTokens stb) = []
       \<and> filter (\<lambda>r. userId r \<noteq> i) (sessions stb) = filter (\<lambda>r. userId r \<noteq> i) (sessions st)
       \<and> filter (\<lambda>r. userId r \<noteq> i) (refreshTokens stb)
           = filter (\<lambda>r. userId r \<noteq> i) (refreshTokens st)
       \<and> users stb = users st"
proof -
  have "s \<in> set (filter (\<lambda>r. userId r = i) (sessions st))"
    using assms(4) by simp
  then have sin: "s \<in> set (sessions st)" and su: "userId s = i"
    by simp_all
  have sta: "sta = st\<lparr>sessions := remove1 s (sessions st)\<rparr>"
    using assms(1,5,6) filter_single_token[OF assms(3) sin]
    by (simp add: logout_def deleteMany_def falsy_def)
  have stb: "stb = delete_for_user i sta"
    using assms(2,7) by (simp add: logoutAll_def)
  have len: "length (remove1 s (sessions st)) + 1 = length (sessions st)"
    using sin by (simp add: length_remove1) (metis length_pos_if_in_set Suc_pred)
  have f1: "filter (\<lambda>r. userId r = i) (remove1 s (sessions st)) = []"
  proof -
    have "filter (\<lambda>r. userId r = i) (remove1 s (sessions st))
          = remove1 s (filter (\<lambda>r. userId r = i) (sessions st))"
      by (rule filter_remove1)
    then show ?thesis using assms(4) by simp
  qed
  have f2: "filter (\<lambda>r. userId r \<noteq> i) (remove1 s (sessions st))
          = filter (\<lambda>r. userId r \<noteq> i) (sessions st)"
    using su by (simp add: filter_remove1_drop)
  show ?thesis
    unfolding stb sta using len f1 f2
    by (simp add: delete_for_user_def deleteMany_def)
qed

theorem logout_session_then_logoutAll_witness:
  "(let st = fst (snd (login stub_lib ex_env ''a'' ''secret123'' ex_store0));
        sta = fst (snd (logout ex_env2 (Some ''u1'') None (Some ''s9'') st));
        stb = fst (snd (logoutAll ex_env2 ''u1'' sta))
    in length (filter (\<lambda>r. userId r = ''u1'') (sessions st)) = 1
     \<and> length (filter (\<lambda>r. userId r = ''u1'') (refreshTokens st)) = 1
     \<and> length (filter (\<lambda>r. userId r = ''u1'') (sessions sta)) = 0
     \<and> length (filter (\<lambda>r. userId r = ''u1'') (refreshTokens sta)) = 1
     \<and> length (filter (\<lambda>r. userId r = ''u1'') (sessions stb)) = 0
     \<and> length (filter (\<lambda>r. userId r = ''u1'') (refreshTokens stb)) = 0
     \<and> sessions stb = sessions ex_store0 \<and> refreshTokens stb = refreshTokens ex_store0)"
proof -
  let ?s = "\<lparr>userId = ''u1'', token = ''s9'', expiresAt = 87400000\<rparr>"
  let ?st = "fst (snd (login stub_lib ex_env ''a'' ''secret123'' ex_store0))"
  have st: "?st = \<lparr>users = [alice, bob, carol],
       sessions = [\<lparr>userId = ''u3'', token = ''s2'', expiresAt = 4600000\<rparr>, ?s],
       refreshTokens = [\<lparr>userId = ''u2'', token = ''r2'', expiresAt = 2000000\<rparr>,
                        \<lparr>userId = ''u1'', token = ''r9'', expiresAt = 605800000\<rparr>]\<rparr>"
    by (simp add: login_run)
  have h: "token ?s \<noteq> []" "''u1'' \<noteq> []" "distinct (map token (sessions ?st))"
    "filter (\<lambda>r. userId r = ''u1'') (sessions ?st) = [?s]"
    unfolding st by simp_all
  have t: "token ?s = ''s9''" by simp
  have e: "x = (fst x, fst (snd x), snd (snd x))" for x :: "response \<times> store \<times> event list"
    by simp
  let ?sta = "fst (snd (logout ex_env2 (Some ''u1'') None (Some ''s9'') ?st))"
  let ?stb = "fst (snd (logoutAll ex_env2 ''u1'' ?sta))"
  have fr: "falsy None" by (simp add: falsy_def)
  note w = logout_session_then_logoutAll[where ev = ex_env2 and evb = ex_env2
      and au = "Some ''u1''", OF h fr e e,
      unfolded t]
  have wa: "filter (\<lambda>r. userId r = ''u1'') (sessions ?sta) = []"
    and wb: "refreshTokens ?sta = refreshTokens ?st"
    and wc: "filter (\<lambda>r. userId r = ''u1'') (sessions ?stb) = []"
    and wd: "filter (\<lambda>r. userId r = ''u1'') (refreshTokens ?stb) = []"
    and we: "filter (\<lambda>r. userId r \<noteq> ''u1'') (sessions ?stb)
               = filter (\<lambda>r. userId r \<noteq> ''u1'') (sessions ?st)"
    and wf: "filter (\<lambda>r. userId r \<noteq> ''u1'') (refreshTokens ?stb)
               = filter (\<lambda>r. userId r \<noteq> ''u1'') (refreshTokens ?st)"
    using w by - (elim conjE, assumption)+
  have k: "filter (\<lambda>r. userId r \<noteq> ''u1'') rows = rows"
    if "filter (\<lambda>r. userId r = ''u1'') rows = []" for rows :: "token_row list"
    using that by (induction rows) (auto split: if_splits)
  have 1: "length (filter (\<lambda>r. userId r = ''u1'') (sessions ?st)) = 1"
    "length (filter (\<lambda>r. userId r = ''u1'') (refreshTokens ?st)) = 1"
    unfolding st by simp_all
  have 2: "length (filter (\<lambda>r. userId r = ''u1'') (sessions ?sta)) = 0"
    unfolding wa by simp
  have 3: "length (filter (\<lambda>r. userId r = ''u1'') (refreshTokens ?sta)) = 1"
    unfolding wb by (rule 1(2))
  have 4: "length (filter (\<lambda>r. userId r = ''u1'') (sessions ?stb)) = 0"
    "length (filter (\<lambda>r. userId r = ''u1'') (refreshTokens ?stb)) = 0"
    unfolding wc wd by simp_all
  have "sessions ?stb = filter (\<lambda>r. userId r \<noteq> ''u1'') (sessions ?st)"
    using we unfolding k[OF wc] .
  then have 5: "sessions ?stb = sessions ex_store0"
    unfolding st by (simp add: ex_store0_def)
  have "refreshTokens ?stb = filter (\<lambda>r. userId r \<noteq> ''u1'') (refreshTokens ?st)"
    using wf unfolding k[OF wd] .
  then have 6: "refreshTokens ?stb = refreshTokens ex_store0"
    unfolding st by (simp add: ex_store0_def)
  show ?thesis
    unfolding Let_def using 1 2 3 4 5 6 by blast
qed

section \<open>The identity reconciler\<close>


lemma user_create_conflict:
  "user_create sch t i d st = None"
  if "d_email d = Some e" and "list_ex (\<lambda>u. email u = e) (users st)"
  using that unfolding user_create_def
  by (auto simp: list_ex_iff Let_def split: option.splits)

lemma user_create_Some_iff:
  "(\<exists>r. user_create sch t i d st = Some r) =
     (d_email d \<noteq> None \<and> d_username d \<noteq> None \<and> resolve_role sch (d_role d) \<noteq> None
      \<and> resolve_isActive sch (d_isActive d) \<noteq> None
      \<and> \<not> list_ex (\<lambda>u. uid u = i \<or> Some (email u) = d_email d
                          \<or> Some (username u) = d_username d) (users st))"
  unfolding user_create_def
  by (auto simp: list_ex_iff Let_def split: option.splits)

lemma user_create_fields:
  assumes "user_create sch t i d st = Some (u, st1)"
  shows "st1 = st\<lparr>users := users st @ [u]\<rparr> \<and> uid u = i
       \<and> d_email d = Some (email u) \<and> d_username d = Some (username u)
       \<and> password u = d_password d
       \<and> resolve_role sch (d_role d) = Some (role u)
       \<and> resolve_isActive sch (d_isActive d) = Some (isActive u)
       \<and> createdAt u = (case d_createdAt d of None \<Rightarrow> t | Some c \<Rightarrow> c)
       \<and> updatedAt u = t"
  using assms unfolding user_create_def
  by (auto simp: Let_def split: option.splits if_splits)

lemma message_createdAt_None:
  "(message_createdAt L eva m = None) = (message_createdAt L evb m = None)"
  unfolding message_createdAt_def
  by (auto split: option.splits js_value.splits)

lemma list_ex_disj: "list_ex (\<lambda>u. P u \<or> Q u) xs = (list_ex P xs \<or> list_ex Q xs)"
  by (auto simp: list_ex_iff)

lemma user_created_Processed_iff:
  assumes "\<not> list_ex (\<lambda>u. uid u = generatedId ev) (users st)"
  shows "(fst (user_created L sch ev m st) = Processed) =
     (finalPassword m \<noteq> None \<and> message_createdAt L ev m \<noteq> None \<and> m_email m \<noteq> None
      \<and> resolve_role sch (m_role m) \<noteq> None \<and> resolve_isActive sch (m_isActive m) \<noteq> None
      \<and> \<not> list_ex (\<lambda>u. Some (email u) = m_email m \<or> Some (username u) = m_email m)
            (users st))"
proof (cases "finalPassword m")
  case None
  then show ?thesis by (simp add: user_created_def)
next
  case fp: (Some fp)
  show ?thesis
  proof (cases "message_createdAt L ev m")
    case None
    then show ?thesis using fp by (simp add: user_created_def)
  next
    case (Some t)
    let ?d = "\<lparr>d_email = m_email m, d_username = m_email m, d_password = fp,
               d_role = m_role m, d_isActive = m_isActive m, d_createdAt = Some t\<rparr>"
    have "(fst (user_created L sch ev m st) = Processed)
          = (\<exists>r. user_create sch (now ev) (generatedId ev) ?d st = Some r)"
      using fp Some by (auto simp: user_created_def split: option.splits)
    also have "\<dots> = (m_email m \<noteq> None \<and> resolve_role sch (m_role m) \<noteq> None
        \<and> resolve_isActive sch (m_isActive m) \<noteq> None
        \<and> \<not> list_ex (\<lambda>u. Some (email u) = m_email m \<or> Some (username u) = m_email m)
              (users st))"
      unfolding user_create_Some_iff using assms by (auto simp: list_ex_iff)
    finally show ?thesis using fp Some by simp
  qed
qed

lemma user_created_Processed_row:
  assumes "user_created L sch ev m st = (Processed, st1)"
  shows "\<exists>u. st1 = st\<lparr>users := users st @ [u]\<rparr> \<and> uid u = generatedId ev
           \<and> m_email m = Some (email u) \<and> username u = email u
           \<and> finalPassword m = Some (password u)
           \<and> resolve_role sch (m_role m) = Some (role u)
           \<and> resolve_isActive sch (m_isActive m) = Some (isActive u)
           \<and> message_createdAt L ev m = Some (createdAt u) \<and> updatedAt u = now ev"
proof -
  from assms obtain fp t u where fp: "finalPassword m = Some fp"
    and t: "message_createdAt L ev m = Some t"
    and c: "user_create sch (now ev) (generatedId ev)
              \<lparr>d_email = m_email m, d_username = m_email m, d_password = fp,
               d_role = m_role m, d_isActive = m_isActive m, d_createdAt = Some t\<rparr> st
            = Some (u, st1)"
    unfolding user_created_def by (auto split: option.splits)
  from user_create_fields[OF c] fp t show ?thesis by auto
qed

lemma user_created_Failed_store: "user_created L sch ev m st = (Failed, st1) \<Longrightarrow> st1 = st"
  unfolding user_created_def by (auto split: option.splits)

lemma user_created_replay:
  assumes "\<not> list_ex (\<lambda>u. uid u = generatedId eva) (users st)"
    and "user_created L sch eva m st = (oa, sta)"
  shows "user_created L sch evb m sta = (Failed, sta)"
proof (cases oa)
  case Processed
  from user_created_Processed_row[OF assms(2)[unfolded Processed]]
  obtain u where u: "sta = st\<lparr>users := users st @ [u]\<rparr>" "m_email m = Some (email u)"
    by auto
  have ex: "list_ex (\<lambda>x. email x = email u) (users sta)" unfolding u(1) by simp
  have "user_create sch t i d sta = None" if "d_email d = m_email m" for t i d
    using that u(2) ex by (intro user_create_conflict[where e = "email u"]) simp_all
  then show ?thesis
    unfolding user_created_def by (auto split: option.splits)
next
  case Failed
  then have s: "sta = st" using assms(2) user_created_Failed_store by blast
  have np: "fst (user_created L sch eva m st) \<noteq> Processed" using assms(2) Failed by simp
  have "fst (user_created L sch evb m st) \<noteq> Processed"
  proof (cases "list_ex (\<lambda>u. uid u = generatedId evb) (users st)")
    case True
    then have "user_create sch t (generatedId evb) d st = None" for t d
      unfolding user_create_def by (auto simp: list_ex_iff Let_def split: option.splits)
    then show ?thesis unfolding user_created_def by (auto split: option.splits)
  next
    case False
    show ?thesis
      using np unfolding user_created_Processed_iff[OF assms(1)] user_created_Processed_iff[OF False]
      using message_createdAt_None[of L eva m evb] by auto
  qed
  then have "fst (user_created L sch evb m st) = Failed"
    by (cases "fst (user_created L sch evb m st)") simp_all
  then show ?thesis
    using user_created_Failed_store[of L sch evb m st "snd (user_created L sch evb m st)"] s
    by (metis prod.collapse)
qed

lemma finalPassword_cases:
  "(m_hashedPassword m = Some h \<and> h \<noteq> [] \<longrightarrow> finalPassword m = Some h)
   \<and> (falsy (m_hashedPassword m) \<and> m_password m = Some p \<and> p \<noteq> []
        \<longrightarrow> finalPassword m = Some p)
   \<and> (falsy (m_hashedPassword m) \<and> falsy (m_password m) \<longrightarrow> finalPassword m = None)"
  by (auto simp: finalPassword_def falsy_def)

text \<open>
  C3. The \<open>user.created\<close> consumer inserts: it calls \<open>create\<close> with no lookup and no update.
  It is applied twice with the same payload, the first time with a generated id that
  no row has. When the first application is processed it appends one row made from the
  payload: the email, the email again as username, as credential the \<open>hashedPassword\<close>
  if the message has one and else its \<open>password\<close>, stored as it came, the role, the
  active flag and the creation time; it is processed exactly when the payload has a
  credential, an email, a usable role, flag and date, and no row has that email as
  email or username. When it fails the store is as before. The second application is
  never processed: its \<open>create\<close> is refused, by the unique email and username of the
  row the first one wrote or by what refused the first, the consumer catches the
  error, and the store is exactly as the first application left it. No second row
  appears: unique emails, usernames and ids stay unique.
\<close>

theorem user_created_twice:
  assumes "\<not> list_ex (\<lambda>u. uid u = generatedId eva) (users st)"
    and "user_created L sch eva m st = (oa, sta)"
    and "user_created L sch evb m sta = (ob, stb)"
  shows "stb = sta \<and> ob = Failed
       \<and> (oa = Processed) =
           (finalPassword m \<noteq> None \<and> message_createdAt L eva m \<noteq> None \<and> m_email m \<noteq> None
            \<and> resolve_role sch (m_role m) \<noteq> None \<and> resolve_isActive sch (m_isActive m) \<noteq> None
            \<and> \<not> list_ex (\<lambda>u. Some (email u) = m_email m \<or> Some (username u) = m_email m)
                  (users st))
       \<and> (oa = Processed \<longrightarrow>
            (\<exists>u. sta = st\<lparr>users := users st @ [u]\<rparr> \<and> uid u = generatedId eva
               \<and> m_email m = Some (email u) \<and> username u = email u
               \<and> finalPassword m = Some (password u)
               \<and> resolve_role sch (m_role m) = Some (role u)
               \<and> resolve_isActive sch (m_isActive m) = Some (isActive u)
               \<and> message_createdAt L eva m = Some (createdAt u) \<and> updatedAt u = now eva))
       \<and> (oa = Failed \<longrightarrow> sta = st)
       \<and> (m_hashedPassword m = Some h \<and> h \<noteq> [] \<longrightarrow> finalPassword m = Some h)
       \<and> (falsy (m_hashedPassword m) \<and> m_password m = Some p \<and> p \<noteq> []
            \<longrightarrow> finalPassword m = Some p)
       \<and> (falsy (m_hashedPassword m) \<and> falsy (m_password m) \<longrightarrow> finalPassword m = None)
       \<and> (distinct (map email (users st)) \<longrightarrow> distinct (map email (users stb)))
       \<and> (distinct (map username (users st)) \<longrightarrow> distinct (map username (users stb)))
       \<and> (distinct (map uid (users st)) \<longrightarrow> distinct (map uid (users stb)))"
proof -
  have r: "stb = sta" "ob = Failed"
    using user_created_replay[OF assms(1,2), of evb] assms(3) by simp_all
  have p: "(oa = Processed) =
           (finalPassword m \<noteq> None \<and> message_createdAt L eva m \<noteq> None \<and> m_email m \<noteq> None
            \<and> resolve_role sch (m_role m) \<noteq> None \<and> resolve_isActive sch (m_isActive m) \<noteq> None
            \<and> \<not> list_ex (\<lambda>u. Some (email u) = m_email m \<or> Some (username u) = m_email m)
                  (users st))"
    using user_created_Processed_iff[OF assms(1), of L sch m] assms(2) by simp
  have row: "\<exists>u. sta = st\<lparr>users := users st @ [u]\<rparr> \<and> uid u = generatedId eva
               \<and> m_email m = Some (email u) \<and> username u = email u
               \<and> finalPassword m = Some (password u)
               \<and> resolve_role sch (m_role m) = Some (role u)
               \<and> resolve_isActive sch (m_isActive m) = Some (isActive u)
               \<and> message_createdAt L eva m = Some (createdAt u) \<and> updatedAt u = now eva"
    if "oa = Processed"
    using user_created_Processed_row[of L sch eva m st sta] assms(2) that by simp
  have f: "sta = st" if "oa = Failed"
    using user_created_Failed_store[of L sch eva m st sta] assms(2) that by simp
  have d: "distinct (map email (users sta))" if "distinct (map email (users st))"
  proof (cases oa)
    case Processed
    from row[OF this] obtain u where u: "sta = st\<lparr>users := users st @ [u]\<rparr>"
      "m_email m = Some (email u)" by auto
    have "\<not> list_ex (\<lambda>x. Some (email x) = m_email m) (users st)"
      using p Processed by (auto simp: list_ex_iff)
    then have "email u \<notin> email ` set (users st)" using u(2) by (auto simp: list_ex_iff)
    then show ?thesis using that u(1) by simp
  next
    case Failed
    then show ?thesis using f that by simp
  qed
  have dn: "distinct (map username (users sta))" if "distinct (map username (users st))"
  proof (cases oa)
    case Processed
    from row[OF this] obtain u where u: "sta = st\<lparr>users := users st @ [u]\<rparr>"
      "m_email m = Some (email u)" "username u = email u" by auto
    have "\<not> list_ex (\<lambda>x. Some (username x) = m_email m) (users st)"
      using p Processed by (auto simp: list_ex_iff)
    then have "username u \<notin> username ` set (users st)" using u(2,3) by (auto simp: list_ex_iff)
    then show ?thesis using that u(1) by simp
  next
    case Failed
    then show ?thesis using f that by simp
  qed
  have di: "distinct (map uid (users sta))" if "distinct (map uid (users st))"
  proof (cases oa)
    case Processed
    from row[OF this] obtain u where u: "sta = st\<lparr>users := users st @ [u]\<rparr>"
      "uid u = generatedId eva" by auto
    have "uid u \<notin> uid ` set (users st)" using assms(1) u(2) by (auto simp: list_ex_iff)
    then show ?thesis using that u(1) by simp
  next
    case Failed
    then show ?thesis using f that by simp
  qed
  show ?thesis
    unfolding r using p row f d dn di finalPassword_cases[of m h p] by blast
qed

lemma created_run:
  "user_created stub_lib stub_schema ex_env ex_msg ex_store
   = (Processed,
      ex_store\<lparr>users := users ex_store @
         [\<lparr>uid = ''u9'', email = ''d@x.com'', username = ''d@x.com'',
           password = stub_sha ''secret123'', role = ''USER'', isActive = True,
           createdAt = 5000, updatedAt = 1000000\<rparr>]\<rparr>)"
proof -
  have "stub_sha ''secret123'' \<noteq> []" by code_simp
  then show ?thesis
    by (simp add: user_created_def user_create_def finalPassword_def falsy_def ex_msg_def
        message_createdAt_def new_Date_def stub_lib_def stub_parse_def
        resolve_role_def resolve_isActive_def stub_schema_def ex_defs Let_def)
qed

theorem user_created_twice_witness:
  "user_created stub_lib stub_schema ex_env ex_msg ex_store
   = (Processed,
      ex_store\<lparr>users := users ex_store @
         [\<lparr>uid = ''u9'', email = ''d@x.com'', username = ''d@x.com'',
           password = stub_sha ''secret123'', role = ''USER'', isActive = True,
           createdAt = 5000, updatedAt = 1000000\<rparr>]\<rparr>)
   \<and> user_created stub_lib stub_schema ex_env2 ex_msg
          (snd (user_created stub_lib stub_schema ex_env ex_msg ex_store))
     = (Failed, snd (user_created stub_lib stub_schema ex_env ex_msg ex_store))"
proof -
  have h: "\<not> list_ex (\<lambda>u. uid u = generatedId ex_env) (users ex_store)"
    by (simp add: ex_defs)
  note t = user_created_twice[where L = stub_lib and sch = stub_schema and m = ex_msg
        and evb = ex_env2, OF h surjective_pairing surjective_pairing]
  have "snd (user_created stub_lib stub_schema ex_env2 ex_msg
          (snd (user_created stub_lib stub_schema ex_env ex_msg ex_store)))
        = snd (user_created stub_lib stub_schema ex_env ex_msg ex_store)"
    and "fst (user_created stub_lib stub_schema ex_env2 ex_msg
          (snd (user_created stub_lib stub_schema ex_env ex_msg ex_store))) = Failed"
    using t by blast+
  then have "user_created stub_lib stub_schema ex_env2 ex_msg
          (snd (user_created stub_lib stub_schema ex_env ex_msg ex_store))
     = (Failed, snd (user_created stub_lib stub_schema ex_env ex_msg ex_store))"
    by (metis prod.collapse)
  then show ?thesis using created_run by simp
qed

text \<open>
  The claim as it was stated calls the handler an upsert by natural key. It is not: a
  second delivery, of the same payload or of one that differs in the role only, finds
  the row, is refused with an error, and writes nothing.
\<close>

theorem user_created_counterexample:
  "fst (user_created stub_lib stub_schema ex_env ex_msg ex_store) = Processed
   \<and> user_created stub_lib stub_schema ex_env2 ex_msg
        (snd (user_created stub_lib stub_schema ex_env ex_msg ex_store))
       = (Failed, snd (user_created stub_lib stub_schema ex_env ex_msg ex_store))
   \<and> user_created stub_lib stub_schema ex_env2 (ex_msg\<lparr>m_role := Some ''ADMIN''\<rparr>)
        (snd (user_created stub_lib stub_schema ex_env ex_msg ex_store))
       = (Failed, snd (user_created stub_lib stub_schema ex_env ex_msg ex_store))"
proof -
  have ne: "stub_sha ''secret123'' \<noteq> []" by code_simp
  have a: "user_created stub_lib stub_schema ex_env2 ex_msg
        (snd (user_created stub_lib stub_schema ex_env ex_msg ex_store))
       = (Failed, snd (user_created stub_lib stub_schema ex_env ex_msg ex_store))"
    unfolding created_run using ne
    by (simp add: user_created_def user_create_def finalPassword_def falsy_def ex_msg_def
        message_createdAt_def new_Date_def stub_lib_def stub_parse_def
        resolve_role_def resolve_isActive_def stub_schema_def ex_defs ex_env2_def Let_def)
  have b: "user_created stub_lib stub_schema ex_env2 (ex_msg\<lparr>m_role := Some ''ADMIN''\<rparr>)
        (snd (user_created stub_lib stub_schema ex_env ex_msg ex_store))
       = (Failed, snd (user_created stub_lib stub_schema ex_env ex_msg ex_store))"
    unfolding created_run using ne
    by (simp add: user_created_def user_create_def finalPassword_def falsy_def ex_msg_def
        message_createdAt_def new_Date_def stub_lib_def stub_parse_def
        resolve_role_def resolve_isActive_def stub_schema_def ex_defs ex_env2_def Let_def)
  show ?thesis using a b by (simp add: created_run)
qed

lemma user_deactivated_store:
  "snd (user_deactivated sch ev i st) =
     \<lparr>users = map (deactivate_row sch (now ev) i) (users st),
      sessions = filter (\<lambda>r. userId r \<noteq> i) (sessions st),
      refreshTokens = filter (\<lambda>r. userId r \<noteq> i) (refreshTokens st)\<rparr>"
proof (cases "list_ex (\<lambda>u. uid u = i) (users st)")
  case True
  then show ?thesis
    by (simp add: user_deactivated_def user_update_def delete_for_user_def deleteMany_def
        deactivate_row_def[abs_def] cong: map_cong)
next
  case False
  then have "map (deactivate_row sch (now ev) i) (users st) = users st"
    by (auto simp: list_ex_iff deactivate_row_def map_idI)
  then show ?thesis using False
    by (simp add: user_deactivated_def user_update_def delete_for_user_def deleteMany_def)
qed

lemma user_deactivated_outcome:
  "fst (user_deactivated sch ev i st)
     = (if list_ex (\<lambda>u. uid u = i) (users st) then Processed else Failed)"
  by (simp add: user_deactivated_def user_update_def)

lemma deactivate_row_twice:
  "deactivate_row sch t2 i (deactivate_row sch t1 i u) = deactivate_row sch t2 i u"
  by (simp add: deactivate_row_def)

lemma deactivate_row_uid: "uid (deactivate_row sch t i u) = uid u"
  by (simp add: deactivate_row_def)

text \<open>
  C6. The \<open>user.deactivated\<close> consumer for a user id leaves every row of that id
  inactive, keeps the other users as they are, and deletes exactly the Session and
  RefreshToken rows of that user. Applied a second time it finds nothing more to do:
  sessions and refresh tokens are as after the first application, the user is still
  inactive, and the users are as after the first application up to the \<open>updatedAt\<close>
  stamp; where the schema does not stamp updates, or both applications read the same
  instant, the whole store is as after the first application. In every case two
  applications leave what the second alone would have left.
\<close>

theorem user_deactivated_twice:
  assumes "user_deactivated sch eva i st = (oa, sta)"
    and "user_deactivated sch evb i sta = (ob, stb)"
  shows "list_all (\<lambda>u. uid u \<noteq> i \<or> \<not> isActive u) (users sta)
       \<and> map uid (users sta) = map uid (users st)
       \<and> filter (\<lambda>u. uid u \<noteq> i) (users sta) = filter (\<lambda>u. uid u \<noteq> i) (users st)
       \<and> sessions sta = filter (\<lambda>r. userId r \<noteq> i) (sessions st)
       \<and> refreshTokens sta = filter (\<lambda>r. userId r \<noteq> i) (refreshTokens st)
       \<and> filter (\<lambda>r. userId r = i) (sessions sta) = []
       \<and> filter (\<lambda>r. userId r = i) (refreshTokens sta) = []
       \<and> list_all (\<lambda>u. uid u \<noteq> i \<or> \<not> isActive u) (users stb)
       \<and> sessions stb = sessions sta \<and> refreshTokens stb = refreshTokens sta
       \<and> map (\<lambda>u. u\<lparr>updatedAt := 0\<rparr>) (users stb) = map (\<lambda>u. u\<lparr>updatedAt := 0\<rparr>) (users sta)
       \<and> (\<not> touch_updatedAt sch \<or> now evb = now eva \<longrightarrow> stb = sta)
       \<and> stb = snd (user_deactivated sch evb i st)
       \<and> ob = oa"
proof -
  have s1: "sta = \<lparr>users = map (deactivate_row sch (now eva) i) (users st),
      sessions = filter (\<lambda>r. userId r \<noteq> i) (sessions st),
      refreshTokens = filter (\<lambda>r. userId r \<noteq> i) (refreshTokens st)\<rparr>"
    using user_deactivated_store[of sch eva i st] assms(1) by simp
  have s2: "stb = \<lparr>users = map (deactivate_row sch (now evb) i) (users sta),
      sessions = filter (\<lambda>r. userId r \<noteq> i) (sessions sta),
      refreshTokens = filter (\<lambda>r. userId r \<noteq> i) (refreshTokens sta)\<rparr>"
    using user_deactivated_store[of sch evb i sta] assms(2) by simp
  have o: "oa = (if list_ex (\<lambda>u. uid u = i) (users st) then Processed else Failed)"
    "ob = (if list_ex (\<lambda>u. uid u = i) (users sta) then Processed else Failed)"
    using user_deactivated_outcome[of sch eva i st] user_deactivated_outcome[of sch evb i sta]
      assms by simp_all
  have a: "list_all (\<lambda>u. uid u \<noteq> i \<or> \<not> isActive u) (map (deactivate_row sch t i) xs)" for t xs
    by (induction xs) (auto simp: deactivate_row_def)
  have b: "filter (\<lambda>u. uid u \<noteq> i) (map (deactivate_row sch t i) xs) = filter (\<lambda>u. uid u \<noteq> i) xs"
    for t xs
    by (induction xs) (auto simp: deactivate_row_def)
  have c: "map (\<lambda>u. u\<lparr>updatedAt := 0\<rparr>) (map (deactivate_row sch t2 i) (map (deactivate_row sch t1 i) xs))
         = map (\<lambda>u. u\<lparr>updatedAt := 0\<rparr>) (map (deactivate_row sch t1 i) xs)" for t1 t2 xs
    by (induction xs) (auto simp: deactivate_row_def)
  have d: "\<not> touch_updatedAt sch \<or> t2 = t1 \<Longrightarrow>
        map (deactivate_row sch t2 i) (map (deactivate_row sch t1 i) xs)
         = map (deactivate_row sch t1 i) xs" for t1 t2 xs
    by (induction xs) (auto simp: deactivate_row_def)
  have e: "list_ex (\<lambda>u. uid u = i) (map (deactivate_row sch t i) xs) = list_ex (\<lambda>u. uid u = i) xs"
    for t xs
    by (induction xs) (auto simp: deactivate_row_def)
  have f: "filter (\<lambda>r. userId r = i) (filter (\<lambda>r. userId r \<noteq> i) rows) = []"
    for rows :: "token_row list"
    by (induction rows) auto
  have g: "map (deactivate_row sch t2 i) (map (deactivate_row sch t1 i) xs)
         = map (deactivate_row sch t2 i) xs" for t1 t2 xs
    by (simp add: deactivate_row_twice comp_def)
  have 1: "list_all (\<lambda>u. uid u \<noteq> i \<or> \<not> isActive u) (users sta)"
    using a[of "now eva" "users st"] unfolding s1 by simp
  have 2: "map uid (users sta) = map uid (users st)"
    unfolding s1 by (simp add: deactivate_row_uid comp_def)
  have 3: "filter (\<lambda>u. uid u \<noteq> i) (users sta) = filter (\<lambda>u. uid u \<noteq> i) (users st)"
    unfolding s1 by (simp add: b)
  have 4: "sessions sta = filter (\<lambda>r. userId r \<noteq> i) (sessions st)"
    "refreshTokens sta = filter (\<lambda>r. userId r \<noteq> i) (refreshTokens st)"
    unfolding s1 by simp_all
  have 5: "filter (\<lambda>r. userId r = i) (sessions sta) = []"
    "filter (\<lambda>r. userId r = i) (refreshTokens sta) = []"
    unfolding 4 by (rule f)+
  have 6: "list_all (\<lambda>u. uid u \<noteq> i \<or> \<not> isActive u) (users stb)"
    using a[of "now evb" "users sta"] unfolding s2 by simp
  have 7: "sessions stb = sessions sta" "refreshTokens stb = refreshTokens sta"
    unfolding s2 4 by simp_all
  have 8: "map (\<lambda>u. u\<lparr>updatedAt := 0\<rparr>) (users stb) = map (\<lambda>u. u\<lparr>updatedAt := 0\<rparr>) (users sta)"
    using c[of "now evb" "now eva" "users st"] unfolding s2 s1 by simp
  have 9: "\<not> touch_updatedAt sch \<or> now evb = now eva \<longrightarrow> stb = sta"
  proof
    assume h: "\<not> touch_updatedAt sch \<or> now evb = now eva"
    have "users stb = users sta"
      using d[OF h, of "users st"] unfolding s2 s1 by simp
    then show "stb = sta" using 7 by simp
  qed
  have 10: "stb = snd (user_deactivated sch evb i st)"
    unfolding user_deactivated_store unfolding s2 s1 by (simp add: deactivate_row_twice)
  have 11: "ob = oa" unfolding o unfolding s1 by (simp add: e)
  show ?thesis using 1 2 3 4 5 6 7 8 9 10 11 by blast
qed

theorem user_deactivated_twice_witness:
  "snd (user_deactivated stub_schema ex_env ''u1'' ex_store)
     = \<lparr>users = [alice\<lparr>isActive := False, updatedAt := 1000000\<rparr>, bob, carol],
        sessions = [\<lparr>userId = ''u3'', token = ''s2'', expiresAt = 4600000\<rparr>],
        refreshTokens = [\<lparr>userId = ''u2'', token = ''r2'', expiresAt = 2000000\<rparr>,
                         \<lparr>userId = ''u3'', token = ''r3'', expiresAt = 500\<rparr>]\<rparr>
   \<and> snd (user_deactivated stub_schema ex_env ''u1''
            (snd (user_deactivated stub_schema ex_env ''u1'' ex_store)))
     = snd (user_deactivated stub_schema ex_env ''u1'' ex_store)"
proof -
  have r: "snd (user_deactivated stub_schema ex_env ''u1'' ex_store)
     = \<lparr>users = [alice\<lparr>isActive := False, updatedAt := 1000000\<rparr>, bob, carol],
        sessions = [\<lparr>userId = ''u3'', token = ''s2'', expiresAt = 4600000\<rparr>],
        refreshTokens = [\<lparr>userId = ''u2'', token = ''r2'', expiresAt = 2000000\<rparr>,
                         \<lparr>userId = ''u3'', token = ''r3'', expiresAt = 500\<rparr>]\<rparr>"
    by (simp add: user_deactivated_def user_update_def delete_for_user_def deleteMany_def
        stub_schema_def ex_defs)
  have "\<not> touch_updatedAt stub_schema \<or> now ex_env = now ex_env" by simp
  then have "snd (user_deactivated stub_schema ex_env ''u1''
            (snd (user_deactivated stub_schema ex_env ''u1'' ex_store)))
     = snd (user_deactivated stub_schema ex_env ''u1'' ex_store)"
    using user_deactivated_twice[where sch = stub_schema and eva = ex_env and evb = ex_env
        and i = "''u1''" and st = ex_store, OF surjective_pairing surjective_pairing]
    by blast
  then show ?thesis using r by simp
qed


section \<open>New credentials\<close>













section \<open>Changing a password with a legacy credential\<close>

lemma changePassword_consults_bcrypt_only:
  assumes "i \<noteq> []" and "cur \<noteq> []" and "6 \<le> length new"
    and "find (\<lambda>u. uid u = i) (users st) = Some u"
    and "bcrypt_compare L cur (password u) = Some False"
  shows "changePassword L sch ev i cur new st
           = (ErrorJson 400 ''Current password is incorrect'', st, [])"
  using assms unfolding changePassword_def by auto

text \<open>
  C4. \<open>changePassword\<close> checks the current password with bcrypt's \<open>compare\<close> alone, not
  with \<open>verifyPassword\<close>. For a stored credential that is a legacy digest or a plaintext
  value, \<open>compare\<close> answers false, so the correct current password is refused with 400
  "Current password is incorrect" and nothing is updated, although \<open>verifyPassword\<close>, and
  with it \<open>login\<close>, accepts that password.
\<close>

theorem changePassword_rejects_legacy_credential:
  "verifyPassword stub_lib ''secret123'' (password carol) = Some True
   \<and> changePassword stub_lib stub_schema ex_env ''u3'' ''secret123'' ''newsecret1'' ex_store
       = (ErrorJson 400 ''Current password is incorrect'', ex_store, [])
   \<and> verifyPassword stub_lib ''hunter2'' (password bob) = Some True
   \<and> changePassword stub_lib stub_schema ex_env ''u2'' ''hunter2'' ''newsecret1'' ex_store
       = (ErrorJson 400 ''Current password is incorrect'', ex_store, [])"
proof -
  have v1: "verifyPassword stub_lib ''secret123'' (password carol) = Some True"
    unfolding carol_def by code_simp
  have v2: "verifyPassword stub_lib ''hunter2'' (password bob) = Some True"
    unfolding bob_def by code_simp
  have f: "find (\<lambda>u. uid u = ''u3'') (users ex_store) = Some carol"
    "find (\<lambda>u. uid u = ''u2'') (users ex_store) = Some bob"
    by (simp_all add: ex_defs)
  have c: "bcrypt_compare stub_lib ''secret123'' (password carol) = Some False"
    "bcrypt_compare stub_lib ''hunter2'' (password bob) = Some False"
    unfolding carol_def bob_def by code_simp+
  show ?thesis
    using v1 v2 changePassword_consults_bcrypt_only[OF _ _ _ f(1) c(1)]
      changePassword_consults_bcrypt_only[OF _ _ _ f(2) c(2)]
    by simp
qed

end
